theory Spec2Isabelle
  imports Main
begin

section \<open>Data model\<close>

text \<open>
  The two pages \<^verbatim>\<open>app/logs/files/page.tsx\<close> (the list page, \<^verbatim>\<open>FilesPage\<close>) and
  \<^verbatim>\<open>app/logs/files/[id]/page.tsx\<close> (the detail page, \<^verbatim>\<open>FileDetailPage\<close>) share one
  interface and one storage key.

  \<^verbatim>\<open>interface ProcessedFile { id; filename; content; processedAt }\<close>, all strings.
  The field \<^verbatim>\<open>id\<close> is written \<open>id_pf\<close>, since \<open>id\<close> is the identity function of HOL.
\<close>

record ProcessedFile =
  id_pf :: string
  filename :: string
  content :: string
  processedAt :: string

text \<open>The browser's \<^verbatim>\<open>File\<close> object; the pages read its \<^verbatim>\<open>name\<close> and \<^verbatim>\<open>size\<close>.\<close>

record File =
  name :: string
  size_bytes :: nat

definition STORAGE_KEY :: string where
  "STORAGE_KEY = ''llama-stack-processed-files''"

text \<open>
  A thrown JavaScript value, as the \<^verbatim>\<open>catch\<close> blocks see it: either an instance of
  \<^verbatim>\<open>Error\<close> with its \<^verbatim>\<open>message\<close>, or any other value.
\<close>

datatype thrown = Error string | NonError

text \<open>\<^verbatim>\<open>error instanceof Error ? error.message : "Unknown error occurred"\<close>\<close>

fun error_message :: "thrown \<Rightarrow> string" where
  "error_message (Error msg) = msg"
| "error_message NonError = ''Unknown error occurred''"

text \<open>
  The parsed body of the conversion response, \<^verbatim>\<open>result\<close>. Both fields are read with
  JavaScript truthiness; \<open>None\<close> stands for a missing (or \<^verbatim>\<open>null\<close>) field. The fields
  are strings, as the \<^verbatim>\<open>ProcessedFile\<close> interface types them.
\<close>

record api_result =
  result_content :: "string option"
  result_filename :: "string option"

text \<open>
  The \<^verbatim>\<open>Response\<close> of \<^verbatim>\<open>fetch\<close>: \<^verbatim>\<open>ok\<close>, \<^verbatim>\<open>statusText\<close>, and what
  \<^verbatim>\<open>await response.json()\<close> followed by the first read of \<^verbatim>\<open>result.content\<close> gives:
  a thrown value (the body is not JSON, or is \<^verbatim>\<open>null\<close>) or the object's fields.
\<close>

record response =
  ok :: bool
  statusText :: string
  json :: "thrown + api_result"

text \<open>\<^verbatim>\<open>await fetch(...)\<close>: the promise rejects (network failure) or yields a response.\<close>

type_synonym fetch_outcome = "thrown + response"

text \<open>The notices of \<^verbatim>\<open>sonner\<close>: \<^verbatim>\<open>toast.error(msg)\<close> and \<^verbatim>\<open>toast.success(msg)\<close>.\<close>

datatype toast = toast_error string | toast_success string

text \<open>
  What \<^verbatim>\<open>JSON.parse\<close> returns when it does not throw. The pages use the value as a
  \<^verbatim>\<open>ProcessedFile[]\<close> without checking it: \<open>Records\<close> is an array of such records;
  \<open>NotArray\<close> is valid JSON of another shape (\<^verbatim>\<open>null\<close>, a number, an object), on which
  \<^verbatim>\<open>files.length\<close>, \<^verbatim>\<open>files.map\<close> and \<^verbatim>\<open>files.find\<close> throw a \<^verbatim>\<open>TypeError\<close>.
  Values of further shapes (an array whose elements are not records, a JSON string) are
  not modelled.
\<close>

datatype parsed = Records "ProcessedFile list" | NotArray

text \<open>
  What the pages use of the browser and is not their own code:
  \<^verbatim>\<open>JSON.parse\<close> on a stored string (\<open>None\<close>: it throws a \<^verbatim>\<open>SyntaxError\<close>),
  \<^verbatim>\<open>JSON.stringify\<close> on the registry, and whether \<^verbatim>\<open>localStorage.setItem\<close> accepts a
  value or throws (a full or disabled storage). They are parameters of the model.
\<close>

record browser =
  JSON_parse :: "string \<Rightarrow> parsed option"
  JSON_stringify :: "ProcessedFile list \<Rightarrow> string"
  setItem_accepts :: "string \<Rightarrow> bool"

text \<open>\<^verbatim>\<open>localStorage\<close>: a map from keys to strings; \<^verbatim>\<open>getItem\<close> gives \<^verbatim>\<open>null\<close> (\<open>None\<close>)
  for a key that is not there.\<close>

type_synonym storage = "string \<rightharpoonup> string"

definition getItem :: "storage \<Rightarrow> string \<Rightarrow> string option" where
  "getItem ls k = ls k"

definition setItem :: "browser \<Rightarrow> storage \<Rightarrow> string \<Rightarrow> string \<Rightarrow> thrown + storage" where
  "setItem b ls k v =
     (if setItem_accepts b v then Inr (ls(k \<mapsto> v)) else Inl (Error ''QuotaExceededError''))"

section \<open>The list page\<close>

text \<open>
  The four \<^verbatim>\<open>useState\<close> cells of \<^verbatim>\<open>FilesPage\<close>, and what the page acts on outside
  React: the storage, the notices shown, the conversion requests sent with \<^verbatim>\<open>fetch\<close>
  (the file of each \<^verbatim>\<open>FormData\<close>), and the invocations of \<^verbatim>\<open>handleUpload\<close> that are
  suspended at \<^verbatim>\<open>await fetch\<close>, each with the \<^verbatim>\<open>selectedFile\<close> its closure captured.
  The cell \<^verbatim>\<open>files\<close> is typed \<^verbatim>\<open>ProcessedFile[]\<close>, but \<^verbatim>\<open>setFiles(parsedFiles)\<close> stores
  whatever \<^verbatim>\<open>JSON.parse\<close> returned: \<open>files_invalid\<close> is true when the cell holds a
  \<open>NotArray\<close> value (\<open>files\<close> is then of no account).
\<close>

record page =
  files :: "ProcessedFile list"
  files_invalid :: bool
  isUploading :: bool
  selectedFile :: "File option"
  isLoading :: bool
  localStorage :: storage
  toasts :: "toast list"
  requests :: "File list"
  pending :: "File list"

text \<open>The first render: the initial values of the \<^verbatim>\<open>useState\<close> calls.\<close>

definition initial :: "storage \<Rightarrow> page" where
  "initial ls =
     \<lparr>files = [], files_invalid = False, isUploading = False, selectedFile = None,
      isLoading = True, localStorage = ls, toasts = [], requests = [], pending = []\<rparr>"

subsection \<open>The load effect (lines 38 to 50)\<close>

text \<open>
  The \<^verbatim>\<open>try\<close> block: \<open>Inl\<close> when \<^verbatim>\<open>JSON.parse\<close> throws, \<open>Inr (Some parsedFiles)\<close> when
  \<^verbatim>\<open>setFiles(parsedFiles)\<close> is called, \<open>Inr None\<close> when \<^verbatim>\<open>stored\<close> is falsy
  (\<^verbatim>\<open>null\<close> or the empty string) and nothing is set.
\<close>

definition load_try :: "browser \<Rightarrow> storage \<Rightarrow> thrown + parsed option" where
  "load_try b ls =
     (case getItem ls STORAGE_KEY of
        None \<Rightarrow> Inr None
      | Some stored \<Rightarrow>
          if stored = [] then Inr None
          else (case JSON_parse b stored of
                  None \<Rightarrow> Inl (Error ''SyntaxError'')
                | Some parsedFiles \<Rightarrow> Inr (Some parsedFiles)))"

text \<open>
  The whole effect: the \<^verbatim>\<open>catch\<close> only writes to the console, the \<^verbatim>\<open>finally\<close> always
  calls \<^verbatim>\<open>setIsLoading(false)\<close>. The result is the state of the next render.
\<close>

definition load_effect :: "browser \<Rightarrow> page \<Rightarrow> page" where
  "load_effect b st =
     (let st' = (case load_try b (localStorage st) of
                   Inl e \<Rightarrow> st
                 | Inr None \<Rightarrow> st
                 | Inr (Some (Records parsedFiles)) \<Rightarrow> st\<lparr>files := parsedFiles\<rparr>
                 | Inr (Some NotArray) \<Rightarrow> st\<lparr>files_invalid := True\<rparr>)
      in st'\<lparr>isLoading := False\<rparr>)"

subsection \<open>The render (lines 138 to 204)\<close>

text \<open>
  \<^verbatim>\<open>renderContent\<close>: the skeleton while loading; otherwise \<^verbatim>\<open>files.length === 0\<close> and
  \<^verbatim>\<open>files.map(...)\<close> are evaluated, which throw when the cell does not hold an array
  (\<open>RenderThrows\<close>); the empty state; or one table row per record.
\<close>

datatype list_view =
    Skeleton
  | RenderThrows
  | EmptyState
  | FilesTable "(string \<times> string \<times> string) list"

definition renderContent :: "page \<Rightarrow> list_view" where
  "renderContent st =
     (if isLoading st then Skeleton
      else if files_invalid st then RenderThrows
      else if length (files st) = 0 then EmptyState
      else FilesTable (map (\<lambda>f. (id_pf f, filename f, processedAt f)) (files st)))"

subsection \<open>The save effect (lines 53 to 61)\<close>

text \<open>
  The effect reads \<^verbatim>\<open>files\<close> and \<^verbatim>\<open>isLoading\<close> from the closure of the render that
  scheduled it: they are arguments. A throwing \<^verbatim>\<open>setItem\<close> is caught and logged to the
  console; the storage is then as before.
\<close>

definition save_effect :: "browser \<Rightarrow> ProcessedFile list \<Rightarrow> bool \<Rightarrow> page \<Rightarrow> page" where
  "save_effect b files_c isLoading_c st =
     (if \<not> isLoading_c then
        (case setItem b (localStorage st) STORAGE_KEY (JSON_stringify b files_c) of
           Inl e \<Rightarrow> st
         | Inr ls \<Rightarrow> st\<lparr>localStorage := ls\<rparr>)
      else st)"

text \<open>
  A render after state updates. When the render throws, React unmounts the page and runs
  none of its effects. Otherwise React runs the save effect again when an entry of its
  dependency array \<^verbatim>\<open>[files, isLoading]\<close> differs from the one of the render before
  (\<open>prev\<close>), with the values of the new render.
\<close>

definition commit :: "browser \<Rightarrow> page \<Rightarrow> page \<Rightarrow> page" where
  "commit b prev st =
     (if renderContent st = RenderThrows then st
      else if files st \<noteq> files prev \<or> isLoading st \<noteq> isLoading prev
      then save_effect b (files st) (isLoading st) st else st)"

text \<open>
  The effects of the first commit, in the order of the source: the load effect, then the
  save effect with the closure of the first render; then the render with the updated
  state and the effects it triggers.
\<close>

definition mount_effects :: "browser \<Rightarrow> page \<Rightarrow> page" where
  "mount_effects b st =
     (let st1 = load_effect b st;
          st2 = save_effect b (files st) (isLoading st) st1
      in commit b st st2)"

definition mount :: "browser \<Rightarrow> storage \<Rightarrow> page" where
  "mount b ls = mount_effects b (initial ls)"

subsection \<open>The handlers\<close>

text \<open>\<^verbatim>\<open>handleFileSelect\<close>: \<^verbatim>\<open>event.target.files?.[0]\<close> is the argument.\<close>

definition handleFileSelect :: "File option \<Rightarrow> page \<Rightarrow> page" where
  "handleFileSelect file st =
     (case file of None \<Rightarrow> st | Some f \<Rightarrow> st\<lparr>selectedFile := Some f\<rparr>)"

text \<open>
  \<^verbatim>\<open>handleUpload\<close> up to \<^verbatim>\<open>await fetch\<close> (lines 70 to 87): the guard on the selection,
  \<^verbatim>\<open>setIsUploading(true)\<close>, and the request.
\<close>

definition handleUpload :: "page \<Rightarrow> page" where
  "handleUpload st =
     (case selectedFile st of
        None \<Rightarrow> st\<lparr>toasts := toasts st @ [toast_error ''Please select a file to upload'']\<rparr>
      | Some f \<Rightarrow>
          st\<lparr>isUploading := True, requests := requests st @ [f], pending := pending st @ [f]\<rparr>)"

text \<open>\<^verbatim>\<open>a || b\<close> on an optional string: \<^verbatim>\<open>a\<close> when it is truthy (present and non-empty).\<close>

definition truthy :: "string option \<Rightarrow> bool" where
  "truthy a = (case a of None \<Rightarrow> False | Some s \<Rightarrow> s \<noteq> [])"

definition or_else :: "string option \<Rightarrow> string \<Rightarrow> string" where
  "or_else a d = (case a of None \<Rightarrow> d | Some s \<Rightarrow> if s \<noteq> [] then s else d)"

text \<open>
  The rest of the \<^verbatim>\<open>try\<close> block (lines 89 to 109): \<open>Inl\<close> is the value thrown,
  \<open>Inr\<close> the \<^verbatim>\<open>newFile\<close>. \<open>uuid\<close> is what \<^verbatim>\<open>crypto.randomUUID()\<close> returns and \<open>now\<close>
  what \<^verbatim>\<open>new Date().toISOString()\<close> returns when the line is reached.
\<close>

definition upload_try :: "File \<Rightarrow> fetch_outcome \<Rightarrow> string \<Rightarrow> string \<Rightarrow> thrown + ProcessedFile" where
  "upload_try selected out uuid now =
     (case out of
        Inl e \<Rightarrow> Inl e
      | Inr resp \<Rightarrow>
          if \<not> ok resp then Inl (Error (''Failed to process file: '' @ statusText resp))
          else (case json resp of
                  Inl e \<Rightarrow> Inl e
                | Inr result \<Rightarrow>
                    (case result_content result of
                       None \<Rightarrow> Inl (Error ''API returned no content'')
                     | Some c \<Rightarrow>
                         if c = [] then Inl (Error ''API returned no content'')
                         else Inr \<lparr>id_pf = uuid,
                                   filename = or_else (result_filename result) (name selected),
                                   content = c,
                                   processedAt = now\<rparr>)))"

text \<open>
  \<^verbatim>\<open>handleUpload\<close> from the point where \<^verbatim>\<open>fetch\<close> settles (lines 89 to 135):
  on success \<^verbatim>\<open>setFiles(prev => [newFile, ...prev])\<close>, the success notice and
  \<^verbatim>\<open>setSelectedFile(null)\<close>; in \<^verbatim>\<open>catch\<close> the error notice; in \<^verbatim>\<open>finally\<close>
  \<^verbatim>\<open>setIsUploading(false)\<close>. The console output and the reset of the input element's
  \<^verbatim>\<open>value\<close> (lines 122 to 127) touch nothing the page reads again; they are not part of
  the state.
\<close>

definition handleUpload_resume ::
  "File \<Rightarrow> fetch_outcome \<Rightarrow> string \<Rightarrow> string \<Rightarrow> page \<Rightarrow> page" where
  "handleUpload_resume selected out uuid now st =
     (let st' = (case upload_try selected out uuid now of
                   Inr newFile \<Rightarrow>
                     st\<lparr>files := newFile # files st,
                        toasts := toasts st @
                          [toast_success (''File processed successfully: '' @ filename newFile @
                                          '' has been converted to markdown'')],
                        selectedFile := None\<rparr>
                 | Inl e \<Rightarrow>
                     st\<lparr>toasts := toasts st @
                          [toast_error (''Error processing file: '' @ error_message e)]\<rparr>)
      in st'\<lparr>isUploading := False\<rparr>)"

subsection \<open>The events the page accepts\<close>

text \<open>
  The events of the page. The file input is \<^verbatim>\<open>disabled={isUploading}\<close> and the upload
  button is \<^verbatim>\<open>disabled={!selectedFile || isUploading}\<close>: a disabled control delivers
  no event to its handler. \<open>MountEffects\<close> runs the effects of the first commit; the
  load effect has the dependency array \<^verbatim>\<open>[]\<close>, so it runs once, and \<^verbatim>\<open>isLoading\<close> is
  true exactly until it has run. \<open>Settle k out uuid now\<close> settles the \<open>k\<close>-th
  suspended \<^verbatim>\<open>fetch\<close> with \<open>out\<close>.

  \<open>step\<close> is what a mounted page does with one event. React runs the effects of the
  first commit before it delivers any event to the page, and delivers none to a page
  whose render has thrown: the executions of the page are those of \<open>execution\<close> below,
  \<open>mount\<close> first and then, if the page is still mounted, the events.
\<close>

datatype event =
    MountEffects
  | FileSelect "File option"
  | ClickUpload
  | Settle nat fetch_outcome string string

fun step :: "browser \<Rightarrow> event \<Rightarrow> page \<Rightarrow> page" where
  "step b MountEffects st = (if isLoading st then mount_effects b st else st)"
| "step b (FileSelect file) st =
     (if isUploading st then st else commit b st (handleFileSelect file st))"
| "step b ClickUpload st =
     (if selectedFile st = None \<or> isUploading st then st else commit b st (handleUpload st))"
| "step b (Settle k out uuid now) st =
     (if k < length (pending st)
      then commit b st
             (handleUpload_resume (pending st ! k) out uuid now
                (st\<lparr>pending := take k (pending st) @ drop (Suc k) (pending st)\<rparr>))
      else st)"

fun run :: "browser \<Rightarrow> event list \<Rightarrow> page \<Rightarrow> page" where
  "run b [] st = st"
| "run b (ev # evs) st = run b evs (step b ev st)"

subsection \<open>Executions\<close>

text \<open>
  An execution of the page on the storage \<open>ls\<close> with the events \<open>evs\<close>: the first render
  and the effects of its commit, then the events, unless the render after the load threw.
\<close>

definition execution :: "browser \<Rightarrow> event list \<Rightarrow> storage \<Rightarrow> page" where
  "execution b evs ls =
     (if renderContent (mount b ls) = RenderThrows then mount b ls
      else run b evs (mount b ls))"

text \<open>
  The moments of an execution, in order: each pairs the \<^verbatim>\<open>isLoading\<close> of the render
  whose code has just run (the value its closures see) with the state that code left.
  First the first render; the load effect and the save effect of its commit, both with
  the closure of the first render; the render that follows them with its effects; then
  one moment for each event, handled in the closure of the render before it.
\<close>

definition mount_moments :: "browser \<Rightarrow> storage \<Rightarrow> (bool \<times> page) list" where
  "mount_moments b ls =
     (let m0 = initial ls;
          m1 = load_effect b m0;
          m2 = save_effect b (files m0) (isLoading m0) m1;
          m3 = commit b m0 m2
      in [(isLoading m0, m0), (isLoading m0, m1), (isLoading m0, m2), (isLoading m2, m3)])"

fun event_moments :: "browser \<Rightarrow> event list \<Rightarrow> page \<Rightarrow> (bool \<times> page) list" where
  "event_moments b [] st = []"
| "event_moments b (ev # evs) st =
     (isLoading st, step b ev st) # event_moments b evs (step b ev st)"

definition moments :: "browser \<Rightarrow> event list \<Rightarrow> storage \<Rightarrow> (bool \<times> page) list" where
  "moments b evs ls =
     mount_moments b ls @
     (if renderContent (mount b ls) = RenderThrows then []
      else event_moments b evs (mount b ls))"

section \<open>The detail page\<close>

text \<open>
  The two \<^verbatim>\<open>useState\<close> cells of \<^verbatim>\<open>FileDetailPage\<close>: \<^verbatim>\<open>file\<close> and \<^verbatim>\<open>isLoading\<close>,
  written \<open>file_d\<close> and \<open>isLoading_d\<close> (the first name is reserved by Isabelle, the
  list page has a cell of the second name).
\<close>

record detail =
  file_d :: "ProcessedFile option"
  isLoading_d :: bool

definition detail_initial :: detail where
  "detail_initial = \<lparr>file_d = None, isLoading_d = True\<rparr>"

text \<open>
  The \<^verbatim>\<open>try\<close> block of the effect (lines 28 to 40): \<open>Inl\<close> when \<^verbatim>\<open>JSON.parse\<close>
  throws, or when \<^verbatim>\<open>files.find\<close> throws because the parsed value is not an array;
  otherwise what \<^verbatim>\<open>files.find(f => f.id === fileId)\<close> found, if the stored string was
  truthy (\<open>files_d\<close> is the local \<^verbatim>\<open>files\<close>).
  \<^verbatim>\<open>Array.prototype.find\<close> returns the first match.
\<close>

definition detail_try :: "browser \<Rightarrow> storage \<Rightarrow> string \<Rightarrow> thrown + ProcessedFile option" where
  "detail_try b ls fileId =
     (case getItem ls STORAGE_KEY of
        None \<Rightarrow> Inr None
      | Some stored \<Rightarrow>
          if stored = [] then Inr None
          else (case JSON_parse b stored of
                  None \<Rightarrow> Inl (Error ''SyntaxError'')
                | Some NotArray \<Rightarrow> Inl (Error ''TypeError'')
                | Some (Records files_d) \<Rightarrow>
                    Inr (List.find (\<lambda>f. id_pf f = fileId) files_d)))"

text \<open>The effect: \<^verbatim>\<open>setFile(foundFile)\<close> only when a record was found; the
  \<^verbatim>\<open>catch\<close> logs; the \<^verbatim>\<open>finally\<close> calls \<^verbatim>\<open>setIsLoading(false)\<close>.\<close>

definition detail_effect :: "browser \<Rightarrow> storage \<Rightarrow> string \<Rightarrow> detail \<Rightarrow> detail" where
  "detail_effect b ls fileId st =
     (let st' = (case detail_try b ls fileId of
                   Inl e \<Rightarrow> st
                 | Inr None \<Rightarrow> st
                 | Inr (Some foundFile) \<Rightarrow> st\<lparr>file_d := Some foundFile\<rparr>)
      in st'\<lparr>isLoading_d := False\<rparr>)"

text \<open>Entering the view: the first render, then the effect.\<close>

definition detail_mount :: "browser \<Rightarrow> storage \<Rightarrow> string \<Rightarrow> detail" where
  "detail_mount b ls fileId = detail_effect b ls fileId detail_initial"

text \<open>
  What the page renders (lines 48 to 123): the skeleton; "File Not Found"; or the
  record's filename, its date and the two content panels, which both show
  \<^verbatim>\<open>file.content\<close> when it is truthy and "No content available" otherwise.
\<close>

datatype content_panel = Markdown string | NoContentAvailable

datatype detail_view =
    DetailSkeleton
  | FileNotFound
  | FileDetail string string content_panel

definition render_panel :: "string \<Rightarrow> content_panel" where
  "render_panel c = (if c \<noteq> [] then Markdown c else NoContentAvailable)"

definition detail_render :: "detail \<Rightarrow> detail_view" where
  "detail_render st =
     (if isLoading_d st then DetailSkeleton
      else (case file_d st of
              None \<Rightarrow> FileNotFound
            | Some f \<Rightarrow> FileDetail (filename f) (processedAt f) (render_panel (content f))))"

section \<open>Concrete inputs\<close>

text \<open>
  A small browser on which the definitions are evaluated: it serialises a registry as
  the bracketed list of its ids, parses back three such strings and the JSON \<^verbatim>\<open>null\<close>.
  \<open>full_browser\<close> is the same browser with a storage that accepts no write.
\<close>

definition report :: ProcessedFile where
  "report = \<lparr>id_pf = ''id-1'', filename = ''report.pdf'', content = ''# Report'',
             processedAt = ''2024-01-01T00:00:00.000Z''\<rparr>"

definition slides :: ProcessedFile where
  "slides = \<lparr>id_pf = ''id-2'', filename = ''slides.pptx'', content = ''## Slides'',
             processedAt = ''2024-01-02T00:00:00.000Z''\<rparr>"

definition test_parse :: "string \<Rightarrow> parsed option" where
  "test_parse s =
     (if s = ''[]'' then Some (Records [])
      else if s = ''[id-1;]'' then Some (Records [report])
      else if s = ''[id-2;id-1;]'' then Some (Records [slides, report])
      else if s = ''null'' then Some NotArray
      else None)"

definition test_stringify :: "ProcessedFile list \<Rightarrow> string" where
  "test_stringify fs = ''['' @ concat (map (\<lambda>f. id_pf f @ '';'') fs) @ '']''"

definition test_browser :: browser where
  "test_browser =
     \<lparr>JSON_parse = test_parse, JSON_stringify = test_stringify, setItem_accepts = (\<lambda>v. True)\<rparr>"

definition full_browser :: browser where
  "full_browser =
     \<lparr>JSON_parse = test_parse, JSON_stringify = test_stringify, setItem_accepts = (\<lambda>v. False)\<rparr>"

definition report_pdf :: File where
  "report_pdf = \<lparr>name = ''report.pdf'', size_bytes = 2048\<rparr>"

definition slides_pptx :: File where
  "slides_pptx = \<lparr>name = ''slides.pptx'', size_bytes = 4096\<rparr>"

definition response_ok :: "string option \<Rightarrow> string option \<Rightarrow> fetch_outcome" where
  "response_ok c n =
     Inr \<lparr>ok = True, statusText = ''OK'',
          json = Inr \<lparr>result_content = c, result_filename = n\<rparr>\<rparr>"

definition corrupted :: storage where
  "corrupted = [STORAGE_KEY \<mapsto> ''{not json'']"

definition null_slot :: storage where
  "null_slot = [STORAGE_KEY \<mapsto> ''null'']"

section \<open>Sequences of uploads\<close>

text \<open>
  One upload through the page that the service answers with content \<open>c\<close> and an
  optional filename \<open>n\<close>: the user picks the file \<open>f\<close>, clicks the button, and the
  request settles while \<^verbatim>\<open>crypto.randomUUID()\<close> gives \<open>uuid\<close> and the clock \<open>now\<close>.
\<close>

type_synonym upload = "File \<times> string \<times> string option \<times> string \<times> string"

fun upload_events :: "upload \<Rightarrow> event list" where
  "upload_events (f, c, n, uuid, now) =
     [FileSelect (Some f), ClickUpload, Settle 0 (response_ok (Some c) n) uuid now]"

fun upload_content :: "upload \<Rightarrow> string" where
  "upload_content (f, c, n, uuid, now) = c"

fun upload_time :: "upload \<Rightarrow> string" where
  "upload_time (f, c, n, uuid, now) = now"

definition uploads :: "upload list \<Rightarrow> event list" where
  "uploads us = concat (map upload_events us)"

text \<open>
  The identifiers are fresh along a run: whenever a request settles, the identifier the
  generator has ready is not the \<^verbatim>\<open>id\<close> of a record of the registry.
\<close>

fun fresh_ids :: "browser \<Rightarrow> event list \<Rightarrow> page \<Rightarrow> bool" where
  "fresh_ids b [] st = True"
| "fresh_ids b (Settle k out uuid now # evs) st =
     (uuid \<notin> set (map id_pf (files st)) \<and> fresh_ids b evs (step b (Settle k out uuid now) st))"
| "fresh_ids b (ev # evs) st = fresh_ids b evs (step b ev st)"

text \<open>A page with one upload in flight, and a registry stored by an earlier session.\<close>

definition uploading_report :: page where
  "uploading_report =
     \<lparr>files = [], files_invalid = False, isUploading = True, selectedFile = Some report_pdf,
      isLoading = False, localStorage = Map.empty, toasts = [], requests = [report_pdf],
      pending = [report_pdf]\<rparr>"

definition stored_report :: storage where
  "stored_report = [STORAGE_KEY \<mapsto> ''[id-1;]'']"

section \<open>Basic facts about the handlers and effects\<close>

lemma save_effect_fields [simp]:
  "files (save_effect b fs l st) = files st"
  "files_invalid (save_effect b fs l st) = files_invalid st"
  "isUploading (save_effect b fs l st) = isUploading st"
  "selectedFile (save_effect b fs l st) = selectedFile st"
  "isLoading (save_effect b fs l st) = isLoading st"
  "toasts (save_effect b fs l st) = toasts st"
  "requests (save_effect b fs l st) = requests st"
  "pending (save_effect b fs l st) = pending st"
  by (simp_all add: save_effect_def split: sum.splits)

lemma commit_fields [simp]:
  "files (commit b prev st) = files st"
  "files_invalid (commit b prev st) = files_invalid st"
  "isUploading (commit b prev st) = isUploading st"
  "selectedFile (commit b prev st) = selectedFile st"
  "isLoading (commit b prev st) = isLoading st"
  "toasts (commit b prev st) = toasts st"
  "requests (commit b prev st) = requests st"
  "pending (commit b prev st) = pending st"
  by (simp_all add: commit_def)

lemma load_effect_fields [simp]:
  "isUploading (load_effect b st) = isUploading st"
  "selectedFile (load_effect b st) = selectedFile st"
  "\<not> isLoading (load_effect b st)"
  "localStorage (load_effect b st) = localStorage st"
  "toasts (load_effect b st) = toasts st"
  "requests (load_effect b st) = requests st"
  "pending (load_effect b st) = pending st"
  by (simp_all add: load_effect_def Let_def split: sum.splits option.splits parsed.splits)

lemma mount_effects_fields [simp]:
  "isUploading (mount_effects b st) = isUploading st"
  "selectedFile (mount_effects b st) = selectedFile st"
  "\<not> isLoading (mount_effects b st)"
  "toasts (mount_effects b st) = toasts st"
  "requests (mount_effects b st) = requests st"
  "pending (mount_effects b st) = pending st"
  "files (mount_effects b st) = files (load_effect b st)"
  "files_invalid (mount_effects b st) = files_invalid (load_effect b st)"
  by (simp_all add: mount_effects_def Let_def)

lemma handleFileSelect_fields [simp]:
  "files (handleFileSelect f st) = files st"
  "isUploading (handleFileSelect f st) = isUploading st"
  "isLoading (handleFileSelect f st) = isLoading st"
  "localStorage (handleFileSelect f st) = localStorage st"
  "toasts (handleFileSelect f st) = toasts st"
  "requests (handleFileSelect f st) = requests st"
  "pending (handleFileSelect f st) = pending st"
  by (simp_all add: handleFileSelect_def split: option.splits)

lemma handleUpload_fields [simp]:
  "files (handleUpload st) = files st"
  "selectedFile (handleUpload st) = selectedFile st"
  "isLoading (handleUpload st) = isLoading st"
  "localStorage (handleUpload st) = localStorage st"
  by (simp_all add: handleUpload_def split: option.splits)

lemma handleUpload_resume_fields [simp]:
  "\<not> isUploading (handleUpload_resume f out uuid now st)"
  "isLoading (handleUpload_resume f out uuid now st) = isLoading st"
  "localStorage (handleUpload_resume f out uuid now st) = localStorage st"
  "requests (handleUpload_resume f out uuid now st) = requests st"
  "pending (handleUpload_resume f out uuid now st) = pending st"
  by (simp_all add: handleUpload_resume_def Let_def split: sum.splits)

lemma handleUpload_resume_Inl:
  "upload_try f out uuid now = Inl e \<Longrightarrow>
   handleUpload_resume f out uuid now st =
     st\<lparr>toasts := toasts st @ [toast_error (''Error processing file: '' @ error_message e)],
        isUploading := False\<rparr>"
  by (simp add: handleUpload_resume_def)

lemma handleUpload_resume_Inr:
  "upload_try f out uuid now = Inr r \<Longrightarrow>
   handleUpload_resume f out uuid now st =
     st\<lparr>files := r # files st,
        toasts := toasts st @
          [toast_success (''File processed successfully: '' @ filename r @
                          '' has been converted to markdown'')],
        selectedFile := None, isUploading := False\<rparr>"
  by (simp add: handleUpload_resume_def)

lemma upload_try_Inl_iff:
  "upload_try f out uuid now = Inl e \<longleftrightarrow>
     out = Inl e
   \<or> (\<exists>resp. out = Inr resp \<and> \<not> ok resp \<and>
         e = Error (''Failed to process file: '' @ statusText resp))
   \<or> (\<exists>resp. out = Inr resp \<and> ok resp \<and> json resp = Inl e)
   \<or> (\<exists>resp result. out = Inr resp \<and> ok resp \<and> json resp = Inr result \<and>
         \<not> truthy (result_content result) \<and> e = Error ''API returned no content'')"
  by (auto simp: upload_try_def truthy_def split: sum.splits option.splits)

lemma upload_try_Inr_iff:
  "upload_try f out uuid now = Inr r \<longleftrightarrow>
     (\<exists>resp result c. out = Inr resp \<and> ok resp \<and> json resp = Inr result \<and>
        result_content result = Some c \<and> c \<noteq> [] \<and>
        r = \<lparr>id_pf = uuid, filename = or_else (result_filename result) (name f),
             content = c, processedAt = now\<rparr>)"
  by (auto simp: upload_try_def split: sum.splits option.splits)

lemma run_append: "run b (xs @ ys) st = run b ys (run b xs st)"
  by (induction xs arbitrary: st) auto

lemma step_loaded: "\<not> isLoading st \<Longrightarrow> \<not> isLoading (step b ev st)"
  by (cases ev) auto

lemma run_loaded: "\<not> isLoading st \<Longrightarrow> \<not> isLoading (run b evs st)"
  by (induction evs arbitrary: st) (simp_all add: step_loaded)

text \<open>The definitions unfolded when the model is evaluated on concrete inputs.\<close>

lemmas model_defs =
  initial_def mount_def mount_effects_def load_effect_def load_try_def save_effect_def
  commit_def getItem_def setItem_def handleFileSelect_def handleUpload_def
  handleUpload_resume_def upload_try_def or_else_def truthy_def renderContent_def
  test_browser_def test_parse_def test_stringify_def report_def slides_def report_pdf_def
  slides_pptx_def response_ok_def corrupted_def stored_report_def uploading_report_def
  STORAGE_KEY_def uploads_def Let_def execution_def full_browser_def null_slot_def

section \<open>Persistence\<close>

text \<open>Mounting the page: what the first commit's effects leave.\<close>

lemma mount_fields:
  "\<not> isLoading (mount b ls)"
  "toasts (mount b ls) = []"
  "requests (mount b ls) = []"
  "files (mount b ls) = files (load_effect b (initial ls))"
  "files_invalid (mount b ls) = files_invalid (load_effect b (initial ls))"
  by (simp_all add: mount_def) (simp_all add: initial_def)

lemma mount_storage:
  "localStorage (mount b ls) =
     (if files_invalid (mount b ls) then ls
      else if setItem_accepts b (JSON_stringify b (files (mount b ls)))
      then ls(STORAGE_KEY \<mapsto> JSON_stringify b (files (mount b ls))) else ls)"
  by (simp add: mount_def mount_effects_def Let_def commit_def save_effect_def setItem_def
      renderContent_def) (simp add: initial_def)

lemma load_unparsable:
  "getItem ls STORAGE_KEY = None \<or> getItem ls STORAGE_KEY = Some []
   \<or> (\<exists>s. getItem ls STORAGE_KEY = Some s \<and> JSON_parse b s = None) \<Longrightarrow>
   load_effect b (initial ls) = (initial ls)\<lparr>isLoading := False\<rparr>"
  by (auto simp: load_effect_def load_try_def initial_def)

lemma load_records:
  "getItem ls STORAGE_KEY = Some s \<Longrightarrow> s \<noteq> [] \<Longrightarrow> JSON_parse b s = Some (Records fs) \<Longrightarrow>
   load_effect b (initial ls) = (initial ls)\<lparr>files := fs, isLoading := False\<rparr>"
  by (simp add: load_effect_def load_try_def initial_def)

lemma load_not_array:
  "getItem ls STORAGE_KEY = Some s \<Longrightarrow> s \<noteq> [] \<Longrightarrow> JSON_parse b s = Some NotArray \<Longrightarrow>
   load_effect b (initial ls) = (initial ls)\<lparr>files_invalid := True, isLoading := False\<rparr>"
  by (simp add: load_effect_def load_try_def initial_def)

text \<open>After the mount no moment of an execution is rendered with \<open>isLoading\<close> true.\<close>

lemma event_moments_loaded:
  "\<not> isLoading st \<Longrightarrow> (l, s) \<in> set (event_moments b evs st) \<Longrightarrow> \<not> l"
proof (induction evs arbitrary: st)
  case Nil
  then show ?case by simp
next
  case (Cons ev evs)
  from Cons.prems(1) have loaded: "\<not> isLoading (step b ev st)" by (rule step_loaded)
  from Cons.prems(2) have "(l, s) = (isLoading st, step b ev st)
      \<or> (l, s) \<in> set (event_moments b evs (step b ev st))" by simp
  then show ?case using Cons.IH [OF loaded] Cons.prems(1) by auto
qed

lemma mount_moments_storage:
  "(l, s) \<in> set (mount_moments b ls) \<Longrightarrow> l \<Longrightarrow> localStorage s = ls"
  by (auto simp: mount_moments_def Let_def save_effect_def) (simp_all add: initial_def)

lemma mount_moments_last: "snd (last (mount_moments b ls)) = mount b ls"
  by (simp add: mount_moments_def mount_def mount_effects_def Let_def)

lemma event_moments_last:
  "snd (last ((l, st) # event_moments b evs st)) = run b evs st"
  by (induction evs arbitrary: l st) simp_all

text \<open>The moments of an execution end in the state the execution reaches.\<close>

lemma moments_last: "snd (last (moments b evs ls)) = execution b evs ls"
proof (cases "renderContent (mount b ls) = RenderThrows")
  case True
  then show ?thesis by (simp add: moments_def execution_def mount_moments_last)
next
  case False
  have "mount_moments b ls = butlast (mount_moments b ls) @ [(False, mount b ls)]"
    by (simp add: mount_moments_def mount_def mount_effects_def Let_def)
  then have "moments b evs ls =
      butlast (mount_moments b ls) @ ((False, mount b ls) # event_moments b evs (mount b ls))"
    using False by (simp add: moments_def)
  then have "last (moments b evs ls) = last ((False, mount b ls) # event_moments b evs (mount b ls))"
    by simp
  with False show ?thesis by (simp only: event_moments_last execution_def if_False)
qed

text \<open>
  C1 (load before save). On every execution of the page, whatever the stored string, the
  browser and the events, at every moment whose render has \<open>isLoading\<close> true the storage
  is the one the execution started with: no write happens before the load has completed.
  These moments are the first render, the load effect and the save effect of the first
  commit, which runs with the closure of the first render and is stopped by its guard;
  every write of the execution comes from a render with \<open>isLoading\<close> false, after the
  load effect.
\<close>

theorem load_before_save:
  "\<forall>(l, s) \<in> set (moments b evs ls). l \<longrightarrow> localStorage s = ls"
proof (clarify)
  fix l s
  assume mem: "(l, s) \<in> set (moments b evs ls)" and l: l
  have "\<not> isLoading (mount b ls)" by (simp add: mount_fields)
  with l mem have "(l, s) \<in> set (mount_moments b ls)"
    by (auto simp: moments_def dest: event_moments_loaded split: if_splits)
  then show "localStorage s = ls" using l by (rule mount_moments_storage)
qed

theorem load_before_save_witness:
  "(isLoading (initial corrupted),
      save_effect test_browser (files (initial corrupted)) (isLoading (initial corrupted))
        (load_effect test_browser (initial corrupted)))
     \<in> set (moments test_browser
              (upload_events (report_pdf, ''# Report'', None, ''id-1'', ''t1'')) corrupted)
 \<and> isLoading (initial corrupted)
 \<and> localStorage
      (save_effect test_browser (files (initial corrupted)) (isLoading (initial corrupted))
        (load_effect test_browser (initial corrupted))) = corrupted
 \<and> localStorage (mount test_browser corrupted) STORAGE_KEY = Some ''[]''
 \<and> localStorage
      (execution test_browser
         (upload_events (report_pdf, ''# Report'', None, ''id-1'', ''t1'')) corrupted)
      STORAGE_KEY = Some ''[id-1;]''"
proof -
  let ?evs = "upload_events (report_pdf, ''# Report'', None, ''id-1'', ''t1'')"
  let ?m2 = "save_effect test_browser (files (initial corrupted)) (isLoading (initial corrupted))
               (load_effect test_browser (initial corrupted))"
  have a: "(isLoading (initial corrupted), ?m2) \<in> set (moments test_browser ?evs corrupted)"
    by (simp add: moments_def mount_moments_def Let_def)
  have b: "isLoading (initial corrupted)" by (simp add: initial_def)
  from load_before_save [of test_browser ?evs corrupted] a b
  have c: "localStorage ?m2 = corrupted" by blast
  have d: "localStorage (mount test_browser corrupted) STORAGE_KEY = Some ''[]''"
    by (simp add: model_defs)
  have e: "localStorage (execution test_browser ?evs corrupted) STORAGE_KEY = Some ''[id-1;]''"
    by (simp add: model_defs)
  from a b c d e show ?thesis by blast
qed

text \<open>
  A slot that holds valid JSON which is not an array, such as \<^verbatim>\<open>null\<close>: the load effect
  stores the value, the next render throws, the page is unmounted and the slot stays.
\<close>

lemma not_array_slot_stays:
  assumes "getItem ls STORAGE_KEY = Some s" and "s \<noteq> []" and "JSON_parse b s = Some NotArray"
  shows "renderContent (mount b ls) = RenderThrows"
    and "localStorage (mount b ls) = ls"
    and "execution b evs ls = mount b ls"
proof -
  from load_not_array [OF assms] have "files_invalid (mount b ls)"
    by (simp add: mount_fields)
  then show "renderContent (mount b ls) = RenderThrows"
    by (simp add: renderContent_def mount_fields)
  then show "execution b evs ls = mount b ls" by (simp add: execution_def)
  from \<open>files_invalid (mount b ls)\<close> show "localStorage (mount b ls) = ls"
    by (simp add: mount_storage)
qed

text \<open>
  C10 (the storage is rewritten once the load completes). As stated, the slot holds the
  serialization of the registry as soon as the load has completed, whatever it held. Two
  executions show otherwise. The save effect wraps \<^verbatim>\<open>setItem\<close> in a \<^verbatim>\<open>try\<close> whose
  \<^verbatim>\<open>catch\<close> only logs: in a browser whose storage accepts no write, the page loads
  the unparsable slot \<^verbatim>\<open>{not json\<close>, its registry is empty and serializes to
  \<^verbatim>\<open>[]\<close>, and the slot still holds \<^verbatim>\<open>{not json\<close>. And on the slot \<^verbatim>\<open>null\<close>, in
  a browser that accepts every write, the load completes, the render that follows throws,
  and the slot still holds \<^verbatim>\<open>null\<close>.
\<close>

theorem slot_not_rewritten_counterexample:
  "\<not> isLoading (mount full_browser corrupted)
 \<and> files (mount full_browser corrupted) = []
 \<and> JSON_stringify full_browser (files (mount full_browser corrupted)) = ''[]''
 \<and> localStorage (mount full_browser corrupted) STORAGE_KEY = Some ''{not json''
 \<and> \<not> isLoading (mount test_browser null_slot)
 \<and> renderContent (mount test_browser null_slot) = RenderThrows
 \<and> localStorage (execution test_browser [] null_slot) STORAGE_KEY = Some ''null''"
  by (simp add: model_defs)

text \<open>
  C10, amended. When the slot is absent, empty, fails to parse as JSON or holds an array
  of records, and the storage accepts the write, mounting the page, with no upload and no
  notice, ends with \<open>isLoading\<close> false and the slot holding the JSON serialization of the
  registry just loaded (the stored records, when the slot held an array of records). In
  particular a stored string that is not JSON is overwritten with the serialization of
  the empty array.
\<close>

theorem rewrite_after_load:
  assumes "setItem_accepts b (JSON_stringify b (files (mount b ls)))"
    and "getItem ls STORAGE_KEY = None \<or> getItem ls STORAGE_KEY = Some []
       \<or> (\<exists>s. getItem ls STORAGE_KEY = Some s \<and>
               (JSON_parse b s = None \<or> (\<exists>fs. JSON_parse b s = Some (Records fs))))"
  shows "\<not> isLoading (mount b ls)
       \<and> toasts (mount b ls) = [] \<and> requests (mount b ls) = []
       \<and> localStorage (mount b ls) = ls(STORAGE_KEY \<mapsto> JSON_stringify b (files (mount b ls)))
       \<and> (getItem ls STORAGE_KEY = Some s \<and> s \<noteq> [] \<and> JSON_parse b s = Some (Records fs) \<longrightarrow>
            files (mount b ls) = fs)
       \<and> (getItem ls STORAGE_KEY = Some s \<and> s \<noteq> [] \<and> JSON_parse b s = None \<longrightarrow>
            localStorage (mount b ls) = ls(STORAGE_KEY \<mapsto> JSON_stringify b []))"
proof -
  have valid: "\<not> files_invalid (mount b ls)"
  proof (cases "\<exists>s fs. getItem ls STORAGE_KEY = Some s \<and> s \<noteq> [] \<and>
                        JSON_parse b s = Some (Records fs)")
    case True
    then obtain s fs where "getItem ls STORAGE_KEY = Some s" "s \<noteq> []"
      "JSON_parse b s = Some (Records fs)" by blast
    from load_records [OF this] show ?thesis by (simp add: mount_fields initial_def)
  next
    case False
    with assms(2) have "getItem ls STORAGE_KEY = None \<or> getItem ls STORAGE_KEY = Some []
       \<or> (\<exists>s. getItem ls STORAGE_KEY = Some s \<and> JSON_parse b s = None)" by auto
    from load_unparsable [OF this] show ?thesis by (simp add: mount_fields initial_def)
  qed
  with assms(1) have store:
    "localStorage (mount b ls) = ls(STORAGE_KEY \<mapsto> JSON_stringify b (files (mount b ls)))"
    by (simp add: mount_storage)
  have recs: "files (mount b ls) = fs"
    if "getItem ls STORAGE_KEY = Some s" and "s \<noteq> []" and "JSON_parse b s = Some (Records fs)"
    using load_records [OF that] by (simp add: mount_fields)
  have "files (mount b ls) = []"
    if "getItem ls STORAGE_KEY = Some s" and "JSON_parse b s = None"
  proof -
    from that have "load_effect b (initial ls) = (initial ls)\<lparr>isLoading := False\<rparr>"
      by (intro load_unparsable) blast
    then show ?thesis by (simp add: mount_fields initial_def)
  qed
  with store recs show ?thesis by (auto simp: mount_fields)
qed

theorem rewrite_after_load_witness:
  "setItem_accepts test_browser (JSON_stringify test_browser (files (mount test_browser corrupted)))
 \<and> getItem corrupted STORAGE_KEY = Some ''{not json''
 \<and> JSON_parse test_browser ''{not json'' = None
 \<and> JSON_stringify test_browser [] = ''[]''
 \<and> localStorage (mount test_browser corrupted) STORAGE_KEY = Some ''[]''"
proof -
  have a: "setItem_accepts test_browser
             (JSON_stringify test_browser (files (mount test_browser corrupted)))"
    by (simp add: test_browser_def)
  have b: "getItem corrupted STORAGE_KEY = Some ''{not json''"
    by (simp add: getItem_def corrupted_def)
  have c: "JSON_parse test_browser ''{not json'' = None"
    by (simp add: test_browser_def test_parse_def)
  have d: "JSON_stringify test_browser [] = ''[]''"
    by (simp add: test_browser_def test_stringify_def)
  from b c have shape: "getItem corrupted STORAGE_KEY = None \<or> getItem corrupted STORAGE_KEY = Some []
       \<or> (\<exists>s. getItem corrupted STORAGE_KEY = Some s \<and>
               (JSON_parse test_browser s = None \<or>
                (\<exists>fs. JSON_parse test_browser s = Some (Records fs))))"
    by blast
  from rewrite_after_load [OF a shape, of "''{not json''"] b c
  have "localStorage (mount test_browser corrupted) =
          corrupted(STORAGE_KEY \<mapsto> JSON_stringify test_browser [])" by blast
  with a b c d show ?thesis by simp
qed

section \<open>Loading\<close>

text \<open>
  C5 (fail-soft load). When the slot is absent, holds the empty string, or holds a string
  on which \<^verbatim>\<open>JSON.parse\<close> throws, the load effect returns the initial state with
  \<open>isLoading\<close> false: the registry is the empty sequence, no notice is shown to the
  user, and the page renders its empty state.
\<close>

theorem fail_soft_load:
  assumes "getItem ls STORAGE_KEY = None \<or> getItem ls STORAGE_KEY = Some []
         \<or> (\<exists>s. getItem ls STORAGE_KEY = Some s \<and> JSON_parse b s = None)"
  shows "load_effect b (initial ls) = (initial ls)\<lparr>isLoading := False\<rparr>
       \<and> files (mount b ls) = [] \<and> \<not> isLoading (mount b ls)
       \<and> toasts (mount b ls) = [] \<and> renderContent (mount b ls) = EmptyState"
proof -
  from assms have eq: "load_effect b (initial ls) = (initial ls)\<lparr>isLoading := False\<rparr>"
    by (rule load_unparsable)
  then have "files (mount b ls) = []" and "\<not> files_invalid (mount b ls)"
    by (simp_all add: mount_fields initial_def)
  with eq show ?thesis by (simp add: mount_fields renderContent_def)
qed

theorem fail_soft_load_witness:
  "getItem corrupted STORAGE_KEY = Some ''{not json''
 \<and> JSON_parse test_browser ''{not json'' = None
 \<and> load_try test_browser corrupted = Inl (Error ''SyntaxError'')
 \<and> files (mount test_browser corrupted) = []
 \<and> toasts (mount test_browser corrupted) = []
 \<and> renderContent (mount test_browser corrupted) = EmptyState"
proof -
  have b: "getItem corrupted STORAGE_KEY = Some ''{not json''"
    by (simp add: getItem_def corrupted_def)
  have c: "JSON_parse test_browser ''{not json'' = None"
    by (simp add: test_browser_def test_parse_def)
  have d: "load_try test_browser corrupted = Inl (Error ''SyntaxError'')"
    by (simp add: load_try_def b c)
  from b c have "getItem corrupted STORAGE_KEY = None \<or> getItem corrupted STORAGE_KEY = Some []
         \<or> (\<exists>s. getItem corrupted STORAGE_KEY = Some s \<and> JSON_parse test_browser s = None)"
    by blast
  from fail_soft_load [OF this] b c d show ?thesis by simp
qed


section \<open>Uploads\<close>

text \<open>What the page does when the \<open>k\<close>-th request in flight settles.\<close>

lemma settle_failed:
  assumes "k < length (pending st)"
    and "upload_try (pending st ! k) out uuid now = Inl e"
  shows "step b (Settle k out uuid now) st =
     st\<lparr>pending := take k (pending st) @ drop (Suc k) (pending st),
        toasts := toasts st @ [toast_error (''Error processing file: '' @ error_message e)],
        isUploading := False\<rparr>"
  using assms by (simp add: handleUpload_resume_Inl commit_def)

lemma settle_succeeded:
  assumes "k < length (pending st)"
    and "upload_try (pending st ! k) out uuid now = Inr r"
  shows "files (step b (Settle k out uuid now) st) = r # files st"
    and "selectedFile (step b (Settle k out uuid now) st) = None"
    and "\<not> isUploading (step b (Settle k out uuid now) st)"
    and "toasts (step b (Settle k out uuid now) st) = toasts st @
          [toast_success (''File processed successfully: '' @ filename r @
                          '' has been converted to markdown'')]"
    and "pending (step b (Settle k out uuid now) st) =
           take k (pending st) @ drop (Suc k) (pending st)"
  using assms by (simp_all add: handleUpload_resume_Inr)

text \<open>
  C2 (conversion content requirement). When the request in flight settles with a response
  whose status is not a success, or with a success response whose \<^verbatim>\<open>content\<close> is
  missing or the empty string, the registry is unchanged (no record is created) and an
  error notice is shown. Conversely, whatever the outcome, the upload produces a record
  only from a success response that carries a non-empty \<^verbatim>\<open>content\<close>, which becomes the
  record's content.
\<close>

theorem content_required:
  assumes "k < length (pending st)"
    and "out = Inr resp"
    and "\<not> ok resp
       \<or> (\<exists>result. json resp = Inr result \<and>
             (result_content result = None \<or> result_content result = Some []))"
  shows "files (step b (Settle k out uuid now) st) = files st
       \<and> (\<exists>msg. toasts (step b (Settle k out uuid now) st) = toasts st @ [toast_error msg])
       \<and> (\<forall>out' r. upload_try (pending st ! k) out' uuid now = Inr r \<longrightarrow>
             (\<exists>resp' result c. out' = Inr resp' \<and> ok resp' \<and> json resp' = Inr result \<and>
                result_content result = Some c \<and> c \<noteq> [] \<and> content r = c))"
proof -
  from assms(2,3) have "\<exists>e. upload_try (pending st ! k) out uuid now = Inl e"
    by (cases "ok resp") (auto simp: upload_try_def)
  then obtain e where "upload_try (pending st ! k) out uuid now = Inl e" ..
  from settle_failed [OF assms(1) this]
  have "files (step b (Settle k out uuid now) st) = files st"
    and "toasts (step b (Settle k out uuid now) st) =
           toasts st @ [toast_error (''Error processing file: '' @ error_message e)]"
    by simp_all
  moreover have "\<exists>resp' result c. out' = Inr resp' \<and> ok resp' \<and> json resp' = Inr result \<and>
                result_content result = Some c \<and> c \<noteq> [] \<and> content r = c"
    if "upload_try (pending st ! k) out' uuid now = Inr r" for out' r
    using that by (auto simp: upload_try_Inr_iff)
  ultimately show ?thesis by blast
qed

theorem content_required_witness:
  "files (step test_browser (Settle 0 (response_ok (Some []) (Some ''report.pdf'')) ''id-1'' ''t1'')
            uploading_report) = []
 \<and> toasts (step test_browser (Settle 0 (response_ok (Some []) (Some ''report.pdf'')) ''id-1'' ''t1'')
            uploading_report) = [toast_error ''Error processing file: API returned no content'']"
proof -
  have a: "0 < length (pending uploading_report)" by (simp add: uploading_report_def)
  have c: "\<not> ok \<lparr>ok = True, statusText = ''OK'',
                  json = Inr \<lparr>result_content = Some [], result_filename = Some ''report.pdf''\<rparr>\<rparr>
       \<or> (\<exists>result. json \<lparr>ok = True, statusText = ''OK'',
                  json = Inr \<lparr>result_content = Some [], result_filename = Some ''report.pdf''\<rparr>\<rparr>
               = Inr result \<and>
             (result_content result = None \<or> result_content result = Some []))"
    by simp
  from content_required [OF a _ c, of "response_ok (Some []) (Some ''report.pdf'')"
         test_browser "''id-1''" "''t1''"]
  have "files (step test_browser (Settle 0 (response_ok (Some []) (Some ''report.pdf'')) ''id-1'' ''t1'')
            uploading_report) = files uploading_report"
    by (simp add: response_ok_def)
  moreover have "toasts (step test_browser (Settle 0 (response_ok (Some []) (Some ''report.pdf'')) ''id-1'' ''t1'')
            uploading_report) = [toast_error ''Error processing file: API returned no content'']"
    by (simp add: model_defs)
  ultimately show ?thesis by (simp add: uploading_report_def)
qed

text \<open>
  C6 (failed upload). When the request in flight fails with cause \<open>e\<close> (the \<^verbatim>\<open>fetch\<close>
  promise rejects; the status is not a success; reading the body throws; or the content
  is missing or empty), an error notice carrying the message of the cause is shown, the
  registry and the file selection are unchanged, \<open>isUploading\<close> is false again, and
  neither the storage nor the list of requests changes.
\<close>

theorem failed_upload:
  assumes "k < length (pending st)"
    and "out = Inl e
       \<or> (\<exists>resp. out = Inr resp \<and> \<not> ok resp \<and>
             e = Error (''Failed to process file: '' @ statusText resp))
       \<or> (\<exists>resp. out = Inr resp \<and> ok resp \<and> json resp = Inl e)
       \<or> (\<exists>resp result. out = Inr resp \<and> ok resp \<and> json resp = Inr result \<and>
             \<not> truthy (result_content result) \<and> e = Error ''API returned no content'')"
  shows "toasts (step b (Settle k out uuid now) st) =
           toasts st @ [toast_error (''Error processing file: '' @ error_message e)]
       \<and> files (step b (Settle k out uuid now) st) = files st
       \<and> selectedFile (step b (Settle k out uuid now) st) = selectedFile st
       \<and> \<not> isUploading (step b (Settle k out uuid now) st)
       \<and> localStorage (step b (Settle k out uuid now) st) = localStorage st
       \<and> requests (step b (Settle k out uuid now) st) = requests st"
proof -
  from assms(2) have "upload_try (pending st ! k) out uuid now = Inl e"
    by (simp only: upload_try_Inl_iff)
  from settle_failed [OF assms(1) this] show ?thesis by simp
qed

theorem failed_upload_witness:
  "toasts (step test_browser (Settle 0 (Inl (Error ''Failed to fetch'')) ''id-1'' ''t1'')
             uploading_report) = [toast_error ''Error processing file: Failed to fetch'']
 \<and> files (step test_browser (Settle 0 (Inl (Error ''Failed to fetch'')) ''id-1'' ''t1'')
             uploading_report) = []
 \<and> selectedFile (step test_browser (Settle 0 (Inl (Error ''Failed to fetch'')) ''id-1'' ''t1'')
             uploading_report) = Some report_pdf
 \<and> \<not> isUploading (step test_browser (Settle 0 (Inl (Error ''Failed to fetch'')) ''id-1'' ''t1'')
             uploading_report)"
proof -
  have a: "0 < length (pending uploading_report)" by (simp add: uploading_report_def)
  from failed_upload [OF a, of "Inl (Error ''Failed to fetch'')" "Error ''Failed to fetch''"
         test_browser "''id-1''" "''t1''"]
  show ?thesis by (simp add: uploading_report_def)
qed





section \<open>Sequences of uploads: order and identifiers\<close>

text \<open>One upload through the page, from an idle page: select, click, settle.\<close>

lemma upload_events_run:
  assumes "\<not> isUploading st" and "pending st = []" and "c \<noteq> []"
  shows "files (run b (upload_events (f, c, n, uuid, now)) st) =
           \<lparr>id_pf = uuid, filename = or_else n (name f), content = c, processedAt = now\<rparr>
           # files st"
    and "\<not> isUploading (run b (upload_events (f, c, n, uuid, now)) st)"
    and "pending (run b (upload_events (f, c, n, uuid, now)) st) = []"
proof -
  let ?s1 = "step b (FileSelect (Some f)) st"
  let ?s2 = "step b ClickUpload ?s1"
  have s1: "selectedFile ?s1 = Some f" "\<not> isUploading ?s1" "pending ?s1 = []" "files ?s1 = files st"
    using assms(1,2) by (simp_all add: handleFileSelect_def)
  have s2: "pending ?s2 = [f]" "files ?s2 = files st"
    using s1 by (simp_all add: handleUpload_def)
  have tried: "upload_try (pending ?s2 ! 0) (response_ok (Some c) n) uuid now =
               Inr \<lparr>id_pf = uuid, filename = or_else n (name f), content = c, processedAt = now\<rparr>"
    using assms(3) s2 by (simp add: upload_try_def response_ok_def)
  have k: "0 < length (pending ?s2)" using s2 by simp
  show "files (run b (upload_events (f, c, n, uuid, now)) st) =
           \<lparr>id_pf = uuid, filename = or_else n (name f), content = c, processedAt = now\<rparr>
           # files st"
    using settle_succeeded(1) [OF k tried, of b] s2 by simp
  show "\<not> isUploading (run b (upload_events (f, c, n, uuid, now)) st)"
    using settle_succeeded(3) [OF k tried, of b] by simp
  show "pending (run b (upload_events (f, c, n, uuid, now)) st) = []"
    using settle_succeeded(5) [OF k tried, of b] s2 by simp
qed

lemma uploads_run:
  "\<not> isUploading st \<Longrightarrow> pending st = [] \<Longrightarrow> \<forall>u \<in> set us. upload_content u \<noteq> [] \<Longrightarrow>
   (\<exists>new. files (run b (uploads us) st) = new @ files st \<and>
           map processedAt new = rev (map upload_time us))
   \<and> \<not> isUploading (run b (uploads us) st) \<and> pending (run b (uploads us) st) = []"
proof (induction us arbitrary: st)
  case Nil
  then show ?case by (simp add: uploads_def)
next
  case (Cons u us)
  obtain f c n uuid now where u: "u = (f, c, n, uuid, now)" by (cases u)
  let ?st = "run b (upload_events u) st"
  from Cons.prems u have c: "c \<noteq> []" by simp
  have one: "files ?st = \<lparr>id_pf = uuid, filename = or_else n (name f), content = c,
                          processedAt = now\<rparr> # files st"
    and idle: "\<not> isUploading ?st" "pending ?st = []"
    unfolding u using upload_events_run [OF Cons.prems(1,2) c] by blast+
  from Cons.prems(3) have rest: "\<forall>u \<in> set us. upload_content u \<noteq> []" by simp
  from Cons.IH [OF idle rest] obtain new where
    new: "files (run b (uploads us) ?st) = new @ files ?st"
         "map processedAt new = rev (map upload_time us)"
    and idle': "\<not> isUploading (run b (uploads us) ?st)" "pending (run b (uploads us) ?st) = []"
    by blast
  have split: "run b (uploads (u # us)) st = run b (uploads us) ?st"
    by (simp add: uploads_def run_append)
  let ?r = "\<lparr>id_pf = uuid, filename = or_else n (name f), content = c, processedAt = now\<rparr>"
  have "files (run b (uploads (u # us)) st) = (new @ [?r]) @ files st"
    using new(1) one split by simp
  moreover have "map processedAt (new @ [?r]) = rev (map upload_time (u # us))"
    using new(2) u by simp
  ultimately show ?case using idle' split by metis
qed

text \<open>
  C3 (most recent first). After \<open>N\<close> successful uploads in a row, made through the page
  from a state with no upload in flight, the registry is the \<open>N\<close> new records followed
  by the records it held before, in their order; and the timestamps of the new records,
  read from the head of the registry, are the timestamps of the uploads in reverse: the
  record of the last upload comes first. With \<open>N = 1\<close>: the new record is prepended.
\<close>

theorem most_recent_first:
  assumes "\<not> isUploading st" and "pending st = []"
    and "\<forall>u \<in> set us. upload_content u \<noteq> []"
  shows "\<exists>new. files (run b (uploads us) st) = new @ files st
              \<and> map processedAt new = rev (map upload_time us)"
  using uploads_run [OF assms] by blast

theorem most_recent_first_witness:
  "\<not> isUploading (mount test_browser stored_report)
 \<and> pending (mount test_browser stored_report) = []
 \<and> map processedAt (files (mount test_browser stored_report)) = [''2024-01-01T00:00:00.000Z'']
 \<and> map processedAt
      (files (run test_browser
                (uploads [(report_pdf, ''# A'', None, ''id-2'', ''2024-02-01T00:00:00.000Z''),
                          (slides_pptx, ''# B'', Some ''deck.pptx'', ''id-3'', ''2024-03-01T00:00:00.000Z'')])
                (mount test_browser stored_report))) =
    [''2024-03-01T00:00:00.000Z'', ''2024-02-01T00:00:00.000Z'', ''2024-01-01T00:00:00.000Z'']"
proof -
  let ?us = "[(report_pdf, ''# A'', None, ''id-2'', ''2024-02-01T00:00:00.000Z''),
              (slides_pptx, ''# B'', Some ''deck.pptx'', ''id-3'', ''2024-03-01T00:00:00.000Z'')]"
  have a: "\<not> isUploading (mount test_browser stored_report)"
    by (simp add: mount_def initial_def)
  have b: "pending (mount test_browser stored_report) = []"
    by (simp add: mount_def initial_def)
  have c: "\<forall>u \<in> set ?us. upload_content u \<noteq> []" by simp
  have d: "map processedAt (files (mount test_browser stored_report)) = [''2024-01-01T00:00:00.000Z'']"
    by (simp add: mount_fields model_defs)
  from most_recent_first [OF a b c, of test_browser] obtain new where
    "files (run test_browser (uploads ?us) (mount test_browser stored_report)) =
       new @ files (mount test_browser stored_report)"
    and "map processedAt new = rev (map upload_time ?us)" by blast
  then have "map processedAt (files (run test_browser (uploads ?us) (mount test_browser stored_report))) =
       rev (map upload_time ?us) @ map processedAt (files (mount test_browser stored_report))"
    by simp
  with a b d show ?thesis by simp
qed

text \<open>A request that settles leaves the registry as it was or prepends a record with the
  identifier just generated; no other event of a loaded page changes the registry.\<close>

lemma settle_files:
  "files (step b (Settle k out uuid now) st) = files st
   \<or> (\<exists>r. files (step b (Settle k out uuid now) st) = r # files st \<and> id_pf r = uuid)"
proof (cases "k < length (pending st)")
  case True
  show ?thesis
  proof (cases "upload_try (pending st ! k) out uuid now")
    case (Inl e)
    from settle_failed [OF True Inl] show ?thesis by simp
  next
    case (Inr r)
    then have "id_pf r = uuid" by (auto simp: upload_try_Inr_iff)
    with settle_succeeded(1) [OF True Inr] show ?thesis by simp
  qed
next
  case False
  then show ?thesis by simp
qed

text \<open>
  C8 (unique identifiers). On every run of a loaded page whose registry has pairwise
  distinct identifiers, if the identifier generator is fresh along the run (the
  identifier it gives when a request settles is not in the registry), the identifiers of
  the registry reached are pairwise distinct.
\<close>

theorem unique_ids:
  assumes "\<not> isLoading st" and "distinct (map id_pf (files st))" and "fresh_ids b evs st"
  shows "distinct (map id_pf (files (run b evs st)))"
  using assms
proof (induction evs arbitrary: st)
  case Nil
  then show ?case by simp
next
  case (Cons ev evs)
  have loaded: "\<not> isLoading (step b ev st)" using Cons.prems(1) by (rule step_loaded)
  have "distinct (map id_pf (files (step b ev st))) \<and> fresh_ids b evs (step b ev st)"
  proof (cases ev)
    case (Settle k out uuid now)
    with Cons.prems(3) have fresh: "uuid \<notin> set (map id_pf (files st))"
      and rest: "fresh_ids b evs (step b ev st)" by simp_all
    from settle_files [of b k out uuid now st] Cons.prems(2) fresh
    have "distinct (map id_pf (files (step b (Settle k out uuid now) st)))" by auto
    with rest Settle show ?thesis by simp
  next
    case MountEffects
    with Cons.prems show ?thesis by simp
  next
    case (FileSelect fo)
    with Cons.prems show ?thesis by simp
  next
    case ClickUpload
    with Cons.prems show ?thesis by simp
  qed
  with Cons.IH [OF loaded] show ?case by simp
qed

theorem unique_ids_witness:
  "\<not> isLoading (mount test_browser stored_report)
 \<and> distinct (map id_pf (files (mount test_browser stored_report)))
 \<and> fresh_ids test_browser (uploads [(report_pdf, ''# A'', None, ''id-2'', ''t2'')])
      (mount test_browser stored_report)
 \<and> distinct (map id_pf (files (run test_browser (uploads [(report_pdf, ''# A'', None, ''id-2'', ''t2'')])
      (mount test_browser stored_report))))"
proof -
  have a: "\<not> isLoading (mount test_browser stored_report)" by (simp add: mount_fields)
  have b: "distinct (map id_pf (files (mount test_browser stored_report)))"
    by (simp add: mount_fields model_defs)
  have c: "fresh_ids test_browser (uploads [(report_pdf, ''# A'', None, ''id-2'', ''t2'')])
      (mount test_browser stored_report)"
    by (simp add: mount_fields model_defs)
  from unique_ids [OF a b c] a b c show ?thesis by simp
qed

section \<open>Serialized uploads\<close>

text \<open>
  \<^verbatim>\<open>handleUpload\<close> itself does not test \<^verbatim>\<open>isUploading\<close>: called on a page that is
  uploading it would send a second request. The guard is the \<^verbatim>\<open>disabled\<close> attribute
  of the button, which \<open>step\<close> applies to \<open>ClickUpload\<close>.
\<close>

lemma handleUpload_unguarded:
  "requests (handleUpload uploading_report) = [report_pdf, report_pdf]"
  by (simp add: handleUpload_def uploading_report_def)





section \<open>The detail view\<close>

text \<open>
  C9 (lookup by identifier). The detail page shows the skeleton until its effect has run.
  The effect reads the slot once and looks the identifier up in the parsed registry with
  \<^verbatim>\<open>find\<close>: when a record \<open>f\<close> is found the page renders its filename, its date and its
  content (the text "No content available" when the content is empty); when no stored
  record has the identifier (the slot is absent, empty, unparsable or not an array, or no
  record of the parsed registry matches) the effect completes and the page renders
  "File Not Found".
\<close>

theorem detail_lookup:
  "detail_render detail_initial = DetailSkeleton
 \<and> (getItem ls STORAGE_KEY = Some s \<and> s \<noteq> [] \<and> JSON_parse b s = Some (Records fs) \<and>
      List.find (\<lambda>f. id_pf f = fileId) fs = Some f \<longrightarrow>
      detail_render (detail_mount b ls fileId) =
        FileDetail (filename f) (processedAt f)
          (if content f = [] then NoContentAvailable else Markdown (content f)))
 \<and> ((\<forall>s fs. getItem ls STORAGE_KEY = Some s \<longrightarrow> JSON_parse b s = Some (Records fs) \<longrightarrow>
        fileId \<notin> set (map id_pf fs)) \<longrightarrow>
      detail_render (detail_mount b ls fileId) = FileNotFound)"
proof (intro conjI impI)
  show "detail_render detail_initial = DetailSkeleton"
    by (simp add: detail_render_def detail_initial_def)
next
  assume "getItem ls STORAGE_KEY = Some s \<and> s \<noteq> [] \<and> JSON_parse b s = Some (Records fs) \<and>
      List.find (\<lambda>f. id_pf f = fileId) fs = Some f"
  then show "detail_render (detail_mount b ls fileId) =
        FileDetail (filename f) (processedAt f)
          (if content f = [] then NoContentAvailable else Markdown (content f))"
    by (simp add: detail_render_def detail_mount_def detail_effect_def detail_try_def
        detail_initial_def render_panel_def)
next
  assume none: "\<forall>s fs. getItem ls STORAGE_KEY = Some s \<longrightarrow> JSON_parse b s = Some (Records fs) \<longrightarrow>
        fileId \<notin> set (map id_pf fs)"
  have "detail_try b ls fileId = Inr None \<or> (\<exists>e. detail_try b ls fileId = Inl e)"
  proof (cases "getItem ls STORAGE_KEY")
    case None
    then show ?thesis by (simp add: detail_try_def)
  next
    case (Some s)
    show ?thesis
    proof (cases "JSON_parse b s")
      case None
      with Some show ?thesis by (simp add: detail_try_def)
    next
      case (Some v)
      show ?thesis
      proof (cases v)
        case NotArray
        with Some \<open>getItem ls STORAGE_KEY = Some s\<close> show ?thesis by (simp add: detail_try_def)
      next
        case (Records fs)
        with Some \<open>getItem ls STORAGE_KEY = Some s\<close> none have "fileId \<notin> set (map id_pf fs)"
          by blast
        then have "List.find (\<lambda>f. id_pf f = fileId) fs = None"
          by (auto simp: find_None_iff)
        with Some Records \<open>getItem ls STORAGE_KEY = Some s\<close> show ?thesis
          by (simp add: detail_try_def)
      qed
    qed
  qed
  then show "detail_render (detail_mount b ls fileId) = FileNotFound"
    by (auto simp: detail_render_def detail_mount_def detail_effect_def detail_initial_def)
qed


theorem detail_lookup_witness:
  "getItem stored_report STORAGE_KEY = Some ''[id-1;]''
 \<and> JSON_parse test_browser ''[id-1;]'' = Some (Records [report])
 \<and> detail_render (detail_mount test_browser stored_report ''id-1'') =
     FileDetail ''report.pdf'' ''2024-01-01T00:00:00.000Z'' (Markdown ''# Report'')
 \<and> detail_render (detail_mount test_browser stored_report ''id-9'') = FileNotFound"
proof -
  have a: "getItem stored_report STORAGE_KEY = Some ''[id-1;]''"
    by (simp add: getItem_def stored_report_def)
  have b: "JSON_parse test_browser ''[id-1;]'' = Some (Records [report])"
    by (simp add: test_browser_def test_parse_def)
  have c: "List.find (\<lambda>f. id_pf f = ''id-1'') [report] = Some report"
    by (simp add: report_def)
  have d: "\<forall>s fs. getItem stored_report STORAGE_KEY = Some s \<longrightarrow>
             JSON_parse test_browser s = Some (Records fs) \<longrightarrow> ''id-9'' \<notin> set (map id_pf fs)"
    using a b by (simp add: report_def)
  from detail_lookup [of stored_report "''[id-1;]''" test_browser "[report]" "''id-1''" report] a b c
  have "detail_render (detail_mount test_browser stored_report ''id-1'') =
     FileDetail (filename report) (processedAt report)
       (if content report = [] then NoContentAvailable else Markdown (content report))"
    by simp
  moreover from detail_lookup [of stored_report _ test_browser _ "''id-9''"] d
  have "detail_render (detail_mount test_browser stored_report ''id-9'') = FileNotFound"
    by blast
  ultimately show ?thesis using a b by (simp add: report_def)
qed

end
